theory Spec2Isabelle
  imports Complex_Main
begin

section \<open>Numbers and the functions of Python's math module\<close>

text \<open>
  Python floats are modelled as real numbers: the arithmetic of the source is taken
  exactly, without rounding, overflow, signed zeros or NaN. The functions of the math
  module that the Maneuver Engine calls are given their mathematical meaning.
\<close>

definition radians :: "real \<Rightarrow> real" where
  "radians x = x * (pi / 180)"

definition degrees :: "real \<Rightarrow> real" where
  "degrees x = x * (180 / pi)"

text \<open>\<open>math.pow(x, n)\<close> for the exponent 2 that the source uses.\<close>

definition pow :: "real \<Rightarrow> nat \<Rightarrow> real" where
  "pow x n = x ^ n"

text \<open>\<open>math.atan2(y, x)\<close>: the angle of the point \<open>(x, y)\<close>, in \<open>(-pi, pi]\<close>, and 0 at the origin.\<close>

definition atan2 :: "real \<Rightarrow> real \<Rightarrow> real" where
  "atan2 y x =
     (if 0 < x then arctan (y / x)
      else if x < 0 then (if 0 \<le> y then arctan (y / x) + pi else arctan (y / x) - pi)
      else if 0 < y then pi / 2
      else if y < 0 then - (pi / 2)
      else 0)"

section \<open>Messages of the Link Handle\<close>

text \<open>
  The classes of the flight-controller library that the engine builds: a local position
  (telemetry), a position setpoint with yaw, a body velocity with yaw speed, an attitude,
  and the geofence polygon.
\<close>

record PositionNed =
  north_m :: real
  east_m :: real
  down_m :: real

record PositionNedYaw = PositionNed +
  yaw_deg :: real

datatype VelocityBodyYawspeed = VelocityBodyYawspeed real real real real

datatype Point = Point (latitude_deg: real) (longitude_deg: real)

datatype FenceType = INCLUSION | EXCLUSION

datatype Polygon = Polygon (points: "Point list") (fence_type: FenceType)

text \<open>The requests on the Link Handle that the modelled code issues: those of the offboard
  capability and the geofence upload.\<close>

datatype Attitude = Attitude real real real real

datatype link_call =
    system_offboard_is_active
  | system_offboard_set_attitude Attitude
  | system_offboard_set_velocity_body VelocityBodyYawspeed
  | system_offboard_set_position_ned PositionNedYaw
  | system_offboard_start
  | system_offboard_stop
  | system_geofence_upload_geofence "Polygon list"

section \<open>Maneuver Engine\<close>

text \<open>
  \<open>_maneuver_with_ned\<close>. The Telemetry Snapshot is read when the coroutine runs: the
  current position \<open>current_pos\<close> and the heading \<open>angle\<close> (the yaw of the attitude, in
  degrees) are parameters. The result is the request sent to the Link Handle.
\<close>

definition maneuver_with_ned ::
  "PositionNed \<Rightarrow> real \<Rightarrow> real \<Rightarrow> real \<Rightarrow> real \<Rightarrow> bool \<times> bool \<times> bool \<Rightarrow> link_call" where
  "maneuver_with_ned current_pos angle front0 right0 down0 on_dimensions =
     (let front = (if \<not> fst on_dimensions then 0 else -1 * front0);
          right = (if \<not> fst (snd on_dimensions) then 0 else -1 * right0);
          down = (if \<not> snd (snd on_dimensions) then 0 else down0);
          angle_of_rotation = radians angle;
          relative_north = right * sin angle_of_rotation + front * cos angle_of_rotation;
          relative_east = right * cos angle_of_rotation - front * sin angle_of_rotation;
          yaw = degrees (atan2 relative_east relative_north);
          north = relative_north + north_m current_pos;
          east = relative_east + east_m current_pos;
          down = down + down_m current_pos
      in system_offboard_set_position_ned \<lparr>north_m = north, east_m = east, down_m = down, yaw_deg = yaw\<rparr>)"

text \<open>
  \<open>_maneuver_to\<close>, with the session's \<open>_min_follow_distance\<close> as first parameter.
\<close>

definition maneuver_to ::
  "real \<Rightarrow> PositionNed \<Rightarrow> real \<Rightarrow> real \<Rightarrow> real \<Rightarrow> real \<Rightarrow> bool \<times> bool \<times> bool \<Rightarrow> bool \<Rightarrow> link_call" where
  "maneuver_to min_follow_distance current_pos angle front right down on_dimensions test_min =
     (if test_min \<and> sqrt (pow front 2 + pow right 2 + pow down 2) < min_follow_distance
      then system_offboard_set_velocity_body (VelocityBodyYawspeed 0 0 0 0)
      else maneuver_with_ned current_pos angle front right down on_dimensions)"

text \<open>
  The displacement as the specification words it: only \<open>front\<close> is negated, \<open>right\<close>
  enters the projection as it is.
\<close>

definition spec_relative_ned :: "real \<Rightarrow> real \<Rightarrow> real \<Rightarrow> real \<times> real" where
  "spec_relative_ned yaw0 front right =
     (right * sin (radians yaw0) + (- front) * cos (radians yaw0),
      right * cos (radians yaw0) - (- front) * sin (radians yaw0))"

section \<open>Geofence\<close>

text \<open>\<open>_create_geofence\<close>, with the home coordinates of the Telemetry Snapshot as parameters.\<close>

definition create_geofence :: "real \<Rightarrow> real \<Rightarrow> real \<Rightarrow> link_call" where
  "create_geofence latitude longitude distance =
     (let offset = distance * (1 / 111111);
          p1 = Point (latitude - offset) (longitude - offset);
          p2 = Point (latitude + offset) (longitude - offset);
          p3 = Point (latitude + offset) (longitude + offset);
          p4 = Point (latitude - offset) (longitude + offset);
          polygon = Polygon [p1, p2, p3, p4] INCLUSION
      in system_geofence_upload_geofence [polygon])"

section \<open>Exceptions and deques\<close>

text \<open>The exceptions that the modelled code raises or catches, each with its message.\<close>

datatype exn =
    IndexError string
  | ActionError string
  | OffboardError string
  | AttributeError string
  | RuntimeError string
  | NameError string
  | OtherError string

text \<open>
  \<open>collections.deque\<close>: the items from left to right, and the optional bound. An append
  to a bounded deque that is full discards the leftmost item; a deque of bound 0 stays
  empty.
\<close>

record 'a deque =
  maxlen :: "nat option"
  items :: "'a list"

definition deque :: "nat option \<Rightarrow> 'a deque" where
  "deque n = \<lparr>maxlen = n, items = []\<rparr>"

definition deque_append :: "'a deque \<Rightarrow> 'a \<Rightarrow> 'a deque" where
  "deque_append d x =
     (case maxlen d of
        None \<Rightarrow> d\<lparr>items := items d @ [x]\<rparr>
      | Some n \<Rightarrow>
          (if n = 0 then d
           else let ys = items d @ [x]
                in d\<lparr>items := (if n < length ys then tl ys else ys)\<rparr>))"

definition popleft :: "'a deque \<Rightarrow> exn + ('a \<times> 'a deque)" where
  "popleft d =
     (case items d of
        [] \<Rightarrow> Inl (IndexError ''pop from an empty deque'')
      | x # xs \<Rightarrow> Inr (x, d\<lparr>items := xs\<rparr>))"

definition clear :: "'a deque \<Rightarrow> 'a deque" where
  "clear d = d\<lparr>items := []\<rparr>"

definition len :: "'a deque \<Rightarrow> nat" where
  "len d = length (items d)"

section \<open>Session, Command Queue and Command Worker\<close>

text \<open>
  A queued callable is a coroutine function (every operation of the Link Handle and the
  two engine coroutines are) or a plain function; \<open>asyncio.iscoroutinefunction\<close> tells
  them apart. A command is the tuple \<open>(obj, args, kwargs)\<close>; the worker accepts \<open>None\<close> in
  each place.
\<close>

datatype callable = coroutine_function string | plain_function string

fun iscoroutinefunction :: "callable \<Rightarrow> bool" where
  "iscoroutinefunction (coroutine_function _) = True"
| "iscoroutinefunction (plain_function _) = False"

type_synonym 'v command = "callable option \<times> 'v list option \<times> (string \<times> 'v) list option"

datatype thread_state = NotStarted | Alive | Finished

datatype System = System nat

text \<open>
  The fields of \<open>AbstractDrone\<close> that the worker and \<open>stop\<close> read or write. \<open>drone\<close> is
  \<open>None\<close> once \<open>_cleanup\<close> has deleted the attribute \<open>_drone\<close>.
\<close>

record 'v session =
  address :: string
  time_slice :: real
  min_follow_distance :: real
  stopped_mavlink :: bool
  stopped_loop :: bool
  drone :: "System option"
  queue :: "'v command deque"
  mavlink_thread :: thread_state
  loop_thread :: thread_state
  logger_handlers :: "string list"

text \<open>
  What the session does to the world outside its fields, in the order it happens: a
  coroutine scheduled on the event loop, a function called inline, a line printed, a
  sleep, an exception that ends a thread, the release of the Link Handle, a stop request
  to the event loop, a call of the teardown hook, a logging handler closed.
\<close>

datatype 'v effect =
    Scheduled callable "'v list" "(string \<times> 'v) list"
  | Called callable "'v list" "(string \<times> 'v) list"
  | Printed exn
  | Slept real
  | Uncaught exn
  | LinkReleased
  | LoopStop
  | Teardown
  | HandlerClosed string

text \<open>The session as \<open>__init__\<close> leaves it: connected, the worker running, the loop thread not started.\<close>

definition init_session :: "string \<Rightarrow> real \<Rightarrow> real \<Rightarrow> nat \<Rightarrow> 'v session" where
  "init_session addr ts mfd port =
     \<lparr>address = addr, time_slice = ts, min_follow_distance = mfd,
      stopped_mavlink = False, stopped_loop = False,
      drone = Some (System port), queue = deque None,
      mavlink_thread = Alive, loop_thread = NotStarted,
      logger_handlers = [''file'', ''stdout'']\<rparr>"

definition put :: "callable \<Rightarrow> 'v list \<Rightarrow> (string \<times> 'v) list \<Rightarrow> 'v session \<Rightarrow> 'v session" where
  "put obj args kwargs s = s\<lparr>queue := deque_append (queue s) (Some obj, Some args, Some kwargs)\<rparr>"

text \<open>\<open>_cleanup\<close>: releases the Link Handle and deletes the attribute; without the attribute it raises.\<close>

definition cleanup :: "'v session \<Rightarrow> exn option \<times> 'v session \<times> 'v effect list" where
  "cleanup s =
     (case drone s of
        None \<Rightarrow> (Some (AttributeError ''_drone''), s, [])
      | Some d \<Rightarrow> (None, s\<lparr>drone := None\<rparr>, [LinkReleased]))"

text \<open>
  \<open>_process_command\<close>. A coroutine function is scheduled on the event loop and not awaited;
  a plain function runs inline, and \<open>call\<close> tells whether it returns or raises. The
  called function acts on the world outside the session: it writes none of the fields
  above.
\<close>

definition process_command ::
  "(callable \<Rightarrow> 'v list \<Rightarrow> (string \<times> 'v) list \<Rightarrow> exn option) \<Rightarrow>
   callable option \<Rightarrow> 'v list \<Rightarrow> (string \<times> 'v) list \<Rightarrow> exn option \<times> 'v effect list" where
  "process_command call com args kwargs =
     (case com of
        None \<Rightarrow> (None, [])
      | Some f \<Rightarrow>
          (if iscoroutinefunction f then (None, [Scheduled f args kwargs])
           else (call f args kwargs, [Called f args kwargs])))"

text \<open>
  One iteration of the loop of \<open>_process_command_loop\<close>: the inner \<open>try\<close> with its handlers
  and its \<open>finally\<close>. \<open>start_time\<close> and \<open>now\<close> are the two readings of \<open>perf_counter\<close>. The
  first component is the exception that leaves the iteration, if any.
\<close>

definition loop_iteration ::
  "(callable \<Rightarrow> 'v list \<Rightarrow> (string \<times> 'v) list \<Rightarrow> exn option) \<Rightarrow>
   'v session \<Rightarrow> real \<Rightarrow> real \<Rightarrow> exn option \<times> 'v session \<times> 'v effect list" where
  "loop_iteration call s start_time now =
     (let (raised, s1, effs) =
            (case popleft (queue s) of
               Inl e \<Rightarrow> (Some e, s, [])
             | Inr ((com, args, kwargs), q) \<Rightarrow>
                 (let args1 = (case args of None \<Rightarrow> [] | Some a \<Rightarrow> a);
                      kwargs1 = (case kwargs of None \<Rightarrow> [] | Some k \<Rightarrow> k);
                      (r, es) = process_command call com args1 kwargs1
                  in (r, s\<lparr>queue := q\<rparr>, es)));
          (leaving, printed) =
            (case raised of
               None \<Rightarrow> (None, [])
             | Some (IndexError m) \<Rightarrow>
                 (None, if m \<noteq> ''pop from an empty deque'' then [Printed (IndexError m)] else [])
             | Some (ActionError m) \<Rightarrow> (None, [Printed (ActionError m)])
             | Some (OffboardError m) \<Rightarrow> (None, [Printed (OffboardError m)])
             | Some e \<Rightarrow> (Some e, []));
          end_time = now - start_time;
          sleeps = (if end_time < time_slice s1 then [Slept (time_slice s1 - end_time)] else [])
      in (leaving, s1, effs @ printed @ sleeps))"

text \<open>The outer \<open>finally\<close>: the worker cleans up and its thread ends.\<close>

definition loop_exit :: "exn option \<Rightarrow> 'v session \<Rightarrow> 'v session \<times> 'v effect list" where
  "loop_exit leaving s =
     (let (r, s1, effs) = cleanup s;
          uncaught = (case r of Some e \<Rightarrow> [Uncaught e]
                      | None \<Rightarrow> (case leaving of Some e \<Rightarrow> [Uncaught e] | None \<Rightarrow> []))
      in (s1\<lparr>mavlink_thread := Finished\<rparr>, effs @ uncaught))"

text \<open>
  One turn of the worker thread: the test of the \<open>while\<close>, then an iteration, and the exit
  when the flag is set or an exception leaves the iteration. A thread that is not running
  does nothing.
\<close>

definition loop_step ::
  "(callable \<Rightarrow> 'v list \<Rightarrow> (string \<times> 'v) list \<Rightarrow> exn option) \<Rightarrow>
   'v session \<Rightarrow> real \<Rightarrow> real \<Rightarrow> 'v session \<times> 'v effect list" where
  "loop_step call s start_time now =
     (if mavlink_thread s \<noteq> Alive then (s, [])
      else if stopped_mavlink s then loop_exit None s
      else (case loop_iteration call s start_time now of
              (None, s1, effs) \<Rightarrow> (s1, effs)
            | (Some e, s1, effs) \<Rightarrow>
                (let (s2, effs2) = loop_exit (Some e) s1 in (s2, effs @ effs2))))"

text \<open>
  \<open>_process_command_loop\<close>, for as many turns as there are clock readings: the loop itself
  runs until the flag is set.
\<close>

fun process_command_loop ::
  "(callable \<Rightarrow> 'v list \<Rightarrow> (string \<times> 'v) list \<Rightarrow> exn option) \<Rightarrow>
   'v session \<Rightarrow> (real \<times> real) list \<Rightarrow> 'v session \<times> 'v effect list" where
  "process_command_loop call s [] = (s, [])"
| "process_command_loop call s ((start_time, now) # clock) =
     (let (s1, effs) = loop_step call s start_time now;
          (s2, effs2) = process_command_loop call s1 clock
      in (s2, effs @ effs2))"

text \<open>
  Callers and the worker interleave: an event is a \<open>put\<close> by some caller or one turn of the
  worker.
\<close>

datatype 'v event =
    Put callable "'v list" "(string \<times> 'v) list"
  | Turn real real

fun run_events ::
  "(callable \<Rightarrow> 'v list \<Rightarrow> (string \<times> 'v) list \<Rightarrow> exn option) \<Rightarrow>
   'v event list \<Rightarrow> 'v session \<Rightarrow> 'v session \<times> 'v effect list" where
  "run_events call [] s = (s, [])"
| "run_events call (Put obj args kwargs # evs) s = run_events call evs (put obj args kwargs s)"
| "run_events call (Turn start_time now # evs) s =
     (let (s1, effs) = loop_step call s start_time now;
          (s2, effs2) = run_events call evs s1
      in (s2, effs @ effs2))"

text \<open>The commands put, the commands dispatched and the commands still queued, each in order.\<close>

fun enqueued :: "'v event list \<Rightarrow> (callable \<times> 'v list \<times> (string \<times> 'v) list) list" where
  "enqueued [] = []"
| "enqueued (Put obj args kwargs # evs) = (obj, args, kwargs) # enqueued evs"
| "enqueued (Turn _ _ # evs) = enqueued evs"

fun dispatched :: "'v effect list \<Rightarrow> (callable \<times> 'v list \<times> (string \<times> 'v) list) list" where
  "dispatched [] = []"
| "dispatched (Scheduled obj args kwargs # effs) = (obj, args, kwargs) # dispatched effs"
| "dispatched (Called obj args kwargs # effs) = (obj, args, kwargs) # dispatched effs"
| "dispatched (_ # effs) = dispatched effs"

fun pending :: "'v command list \<Rightarrow> (callable \<times> 'v list \<times> (string \<times> 'v) list) list" where
  "pending [] = []"
| "pending ((Some obj, args, kwargs) # cs) =
     (obj, (case args of None \<Rightarrow> [] | Some a \<Rightarrow> a), (case kwargs of None \<Rightarrow> [] | Some k \<Rightarrow> k)) # pending cs"
| "pending ((None, _, _) # cs) = pending cs"

fun sleeps :: "'v effect list \<Rightarrow> real list" where
  "sleeps [] = []"
| "sleeps (Slept d # effs) = d # sleeps effs"
| "sleeps (_ # effs) = sleeps effs"

text \<open>An exception that no handler of the iteration catches.\<close>

fun fatal :: "exn option \<Rightarrow> bool" where
  "fatal None = False"
| "fatal (Some (IndexError _)) = False"
| "fatal (Some (ActionError _)) = False"
| "fatal (Some (OffboardError _)) = False"
| "fatal (Some _) = True"

section \<open>Stopping the session\<close>

datatype stop_result = Returned | Raised exn | Blocked

text \<open>
  \<open>disarm\<close> and \<open>land\<close>: the argument \<open>self._drone.action.disarm\<close> is evaluated before \<open>put\<close>
  is called, and raises when the attribute \<open>_drone\<close> is gone.
\<close>

definition disarm :: "'v session \<Rightarrow> exn option \<times> 'v session" where
  "disarm s =
     (case drone s of
        None \<Rightarrow> (Some (AttributeError ''_drone''), s)
      | Some d \<Rightarrow> (None, put (coroutine_function ''action.disarm'') [] [] s))"

definition land :: "'v session \<Rightarrow> exn option \<times> 'v session" where
  "land s =
     (case drone s of
        None \<Rightarrow> (Some (AttributeError ''_drone''), s)
      | Some d \<Rightarrow> (None, put (coroutine_function ''action.land'') [] [] s))"

text \<open>
  The teardown hook of \<open>CSM_Gazebo\<close> closes the frame processor, which is outside the
  session: it returns and leaves the session as it is.
\<close>

definition gazebo_teardown :: "'v session \<Rightarrow> exn option \<times> 'v session" where
  "gazebo_teardown s = (None, s)"

text \<open>
  The spin wait of \<open>stop\<close>: while the queue is not empty the caller sleeps and the worker
  takes its turns. \<open>clock\<close> gives the clock readings of the worker's turns. One turn
  removes one command, so as many turns as there are commands empty the queue unless the
  worker has ended.
\<close>

fun drain ::
  "(callable \<Rightarrow> 'v list \<Rightarrow> (string \<times> 'v) list \<Rightarrow> exn option) \<Rightarrow> (nat \<Rightarrow> real \<times> real) \<Rightarrow>
   nat \<Rightarrow> 'v session \<Rightarrow> 'v session \<times> 'v effect list" where
  "drain call clock 0 s = (s, [])"
| "drain call clock (Suc n) s =
     (if 0 < len (queue s) \<and> mavlink_thread s = Alive
      then (let (s1, effs) = loop_step call s (fst (clock n)) (snd (clock n));
                (s2, effs2) = drain call clock n s1
            in (s2, effs @ effs2))
      else (s, []))"

text \<open>
  \<open>stop\<close>, with the teardown hook of the concrete drone as a parameter. Where \<open>stop\<close> waits
  for another thread, that thread runs to the point waited for: the loop thread ends once
  the flag is set, the worker empties the queue, and the worker leaves its loop and cleans
  up once its flag is set. With commands left and no worker the spin wait never ends.
\<close>

definition stop ::
  "(callable \<Rightarrow> 'v list \<Rightarrow> (string \<times> 'v) list \<Rightarrow> exn option) \<Rightarrow>
   ('v session \<Rightarrow> exn option \<times> 'v session) \<Rightarrow> (nat \<Rightarrow> real \<times> real) \<Rightarrow>
   'v session \<Rightarrow> stop_result \<times> 'v session \<times> 'v effect list" where
  "stop call teardown clock s =
     (let s1 = s\<lparr>queue := clear (queue s)\<rparr>;
          (r2, s2) = disarm s1
      in case (case r2 of Some (AttributeError m) \<Rightarrow> None | e \<Rightarrow> e) of
           Some e \<Rightarrow> (Raised e, s2, [])
         | None \<Rightarrow>
            (let s3 = s2\<lparr>stopped_loop := True\<rparr>;
                 s4 = s3\<lparr>loop_thread := (case loop_thread s3 of Alive \<Rightarrow> Finished | t \<Rightarrow> t)\<rparr>;
                 (r5, s5) = teardown s4
             in case r5 of
                  Some e \<Rightarrow> (Raised e, s5, [LoopStop, Teardown])
                | None \<Rightarrow>
                   (let (s6, effs6) = drain call clock (len (queue s5)) s5
                    in if 0 < len (queue s6) then (Blocked, s6, [LoopStop, Teardown] @ effs6)
                       else (let s7 = s6\<lparr>stopped_mavlink := True\<rparr>
                             in case mavlink_thread s7 of
                                  NotStarted \<Rightarrow>
                                    (Raised (RuntimeError ''cannot join thread before it is started''), s7,
                                     [LoopStop, Teardown] @ effs6)
                                | Finished \<Rightarrow>
                                    (Returned, s7\<lparr>logger_handlers := []\<rparr>,
                                     [LoopStop, Teardown] @ effs6 @ map HandlerClosed (logger_handlers s7))
                                | Alive \<Rightarrow>
                                    (let (s8, effs8) = loop_exit None s7
                                     in (Returned, s8\<lparr>logger_handlers := []\<rparr>,
                                         [LoopStop, Teardown] @ effs6 @ effs8
                                           @ map HandlerClosed (logger_handlers s8)))))))"

section \<open>Plugins and their task caches\<close>

text \<open>\<open>AbstractPlugin\<close>: the Link Handle and the two caches, each a deque of bound 10.\<close>

record ('t, 'r) plugin =
  system :: System
  task_cache :: "'t deque"
  result_cache :: "'r deque"

definition plugin_init :: "System \<Rightarrow> ('t, 'r) plugin" where
  "plugin_init sys = \<lparr>system = sys, task_cache = deque (Some 10), result_cache = deque (Some 10)\<rparr>"

text \<open>
  \<open>_task_callback\<close> runs when a task is done; \<open>task.result()\<close> is the value of the task, or
  raises the exception the task ended with.
\<close>

definition task_callback ::
  "('t, 'r, 'm) plugin_scheme \<Rightarrow> exn + 'r \<Rightarrow> exn option \<times> ('t, 'r, 'm) plugin_scheme" where
  "task_callback p outcome =
     (case outcome of
        Inl e \<Rightarrow> (Some e, p)
      | Inr r \<Rightarrow> (None, p\<lparr>result_cache := deque_append (result_cache p) r\<rparr>))"

definition submit_task ::
  "('t, 'r, 'm) plugin_scheme \<Rightarrow> 't \<Rightarrow> 't \<times> ('t, 'r, 'm) plugin_scheme" where
  "submit_task p new_task = (new_task, p\<lparr>task_cache := deque_append (task_cache p) new_task\<rparr>)"

text \<open>What happens to a plugin: a task is submitted, or a submitted task is done.\<close>

datatype ('t, 'r) plugin_event = Submit 't | Done "exn + 'r"

fun run_plugin ::
  "('t, 'r) plugin_event list \<Rightarrow> ('t, 'r, 'm) plugin_scheme \<Rightarrow> ('t, 'r, 'm) plugin_scheme" where
  "run_plugin [] p = p"
| "run_plugin (Submit t # evs) p = run_plugin evs (snd (submit_task p t))"
| "run_plugin (Done outcome # evs) p = run_plugin evs (snd (task_callback p outcome))"

subsection \<open>The offboard plugin\<close>











text \<open>The worker is running: its thread is alive and its stop flag is not set.\<close>

definition running :: "'v session \<Rightarrow> bool" where
  "running s = (mavlink_thread s = Alive \<and> \<not> stopped_mavlink s)"

section \<open>Properties of the Maneuver Engine\<close>

text \<open>
  Claim C1, as the code has it. With all axes enabled both \<open>front\<close> and \<open>right\<close> are
  negated before the rotation by the heading; \<open>down\<close> is added as it is. The setpoint is
  the current position plus that displacement, and its yaw is \<open>atan2 east north\<close> of the
  displacement, in degrees. At heading 0 a request \<open>(10, 0, 0)\<close> from the origin gives
  north -10, east 0 and yaw 180; at heading 90 it gives a setpoint whose north is 0 and
  whose east is 10, each to within a billionth of a metre.
\<close>

theorem maneuver_with_ned_projection:
  "maneuver_with_ned current_pos yaw0 front right down (True, True, True) =
     system_offboard_set_position_ned
       \<lparr>north_m = ((- right) * sin (radians yaw0) + (- front) * cos (radians yaw0)) + north_m current_pos,
        east_m = ((- right) * cos (radians yaw0) - (- front) * sin (radians yaw0)) + east_m current_pos,
        down_m = down + down_m current_pos,
        yaw_deg = degrees (atan2 ((- right) * cos (radians yaw0) - (- front) * sin (radians yaw0))
                                 ((- right) * sin (radians yaw0) + (- front) * cos (radians yaw0)))\<rparr>
   \<and> maneuver_with_ned \<lparr>north_m = 0, east_m = 0, down_m = 0\<rparr> 0 10 0 0 (True, True, True) =
       system_offboard_set_position_ned \<lparr>north_m = - 10, east_m = 0, down_m = 0, yaw_deg = 180\<rparr>
   \<and> (\<exists>p. maneuver_with_ned \<lparr>north_m = 0, east_m = 0, down_m = 0\<rparr> 90 10 0 0 (True, True, True) =
            system_offboard_set_position_ned p
          \<and> \<bar>north_m p - 0\<bar> \<le> 1 / 10 ^ 9 \<and> \<bar>east_m p - 10\<bar> \<le> 1 / 10 ^ 9)"
proof -
  have general: "maneuver_with_ned current_pos yaw0 front right down (True, True, True) =
     system_offboard_set_position_ned
       \<lparr>north_m = ((- right) * sin (radians yaw0) + (- front) * cos (radians yaw0)) + north_m current_pos,
        east_m = ((- right) * cos (radians yaw0) - (- front) * sin (radians yaw0)) + east_m current_pos,
        down_m = down + down_m current_pos,
        yaw_deg = degrees (atan2 ((- right) * cos (radians yaw0) - (- front) * sin (radians yaw0))
                                 ((- right) * sin (radians yaw0) + (- front) * cos (radians yaw0)))\<rparr>"
    by (simp add: maneuver_with_ned_def Let_def algebra_simps)
  have north: "maneuver_with_ned \<lparr>north_m = 0, east_m = 0, down_m = 0\<rparr> 0 10 0 0 (True, True, True) =
       system_offboard_set_position_ned \<lparr>north_m = - 10, east_m = 0, down_m = 0, yaw_deg = 180\<rparr>"
    by (simp add: maneuver_with_ned_def radians_def degrees_def atan2_def)
  have "maneuver_with_ned \<lparr>north_m = 0, east_m = 0, down_m = 0\<rparr> 90 10 0 0 (True, True, True) =
       system_offboard_set_position_ned \<lparr>north_m = 0, east_m = 10, down_m = 0, yaw_deg = 90\<rparr>"
    by (simp add: maneuver_with_ned_def radians_def degrees_def atan2_def)
  then have east: "\<exists>p. maneuver_with_ned \<lparr>north_m = 0, east_m = 0, down_m = 0\<rparr> 90 10 0 0 (True, True, True) =
            system_offboard_set_position_ned p
          \<and> \<bar>north_m p - 0\<bar> \<le> 1 / 10 ^ 9 \<and> \<bar>east_m p - 10\<bar> \<le> 1 / 10 ^ 9"
    by simp
  from general north east show ?thesis by (intro conjI)
qed

text \<open>
  The claim as worded, with \<open>right\<close> not negated, fails: at heading 0 a request one metre
  to the right from the origin is sent one metre west (east -1, yaw -90), where the
  worded formula gives east +1.
\<close>

theorem maneuver_right_unmodified_counterexample:
  "maneuver_with_ned \<lparr>north_m = 0, east_m = 0, down_m = 0\<rparr> 0 0 1 0 (True, True, True)
     = system_offboard_set_position_ned \<lparr>north_m = 0, east_m = - 1, down_m = 0, yaw_deg = - 90\<rparr>
   \<and> spec_relative_ned 0 0 1 = (0, 1)
   \<and> maneuver_with_ned \<lparr>north_m = 0, east_m = 0, down_m = 0\<rparr> 0 0 1 0 (True, True, True)
     \<noteq> system_offboard_set_position_ned
          \<lparr>north_m = fst (spec_relative_ned 0 0 1) + 0, east_m = snd (spec_relative_ned 0 0 1) + 0,
           down_m = 0 + 0,
           yaw_deg = degrees (atan2 (snd (spec_relative_ned 0 0 1)) (fst (spec_relative_ned 0 0 1)))\<rparr>"
  by (simp add: maneuver_with_ned_def spec_relative_ned_def radians_def degrees_def atan2_def)

text \<open>
  Claim C3. With \<open>test_min\<close> set, a request whose Euclidean norm is strictly below
  \<open>min_follow_distance\<close> is answered by the zero-velocity hold and nothing else; a request
  whose norm equals or exceeds it goes on to \<open>_maneuver_with_ned\<close> and a position setpoint.
\<close>

theorem maneuver_to_min_distance_gate:
  "(sqrt (front\<^sup>2 + right\<^sup>2 + down\<^sup>2) < min_distance \<longrightarrow>
      maneuver_to min_distance current_pos angle front right down on_dimensions True =
        system_offboard_set_velocity_body (VelocityBodyYawspeed 0 0 0 0))
   \<and> (min_distance \<le> sqrt (front\<^sup>2 + right\<^sup>2 + down\<^sup>2) \<longrightarrow>
      maneuver_to min_distance current_pos angle front right down on_dimensions True =
        maneuver_with_ned current_pos angle front right down on_dimensions
      \<and> (\<exists>p. maneuver_to min_distance current_pos angle front right down on_dimensions True =
            system_offboard_set_position_ned p))"
  by (simp add: maneuver_to_def pow_def maneuver_with_ned_def Let_def)

lemma sqrt_3_4_0: "sqrt (3\<^sup>2 + 4\<^sup>2 + 0\<^sup>2) = (5::real)"
proof -
  have "(3::real)\<^sup>2 + 4\<^sup>2 + 0\<^sup>2 = 5\<^sup>2" by simp
  moreover have "sqrt ((5::real)\<^sup>2) = 5" by simp
  ultimately show ?thesis by (simp only:)
qed

theorem maneuver_to_min_distance_gate_witness:
  "maneuver_to 5 \<lparr>north_m = 0, east_m = 0, down_m = 0\<rparr> 0 0 0 0 (True, True, True) True =
     system_offboard_set_velocity_body (VelocityBodyYawspeed 0 0 0 0)
   \<and> (\<exists>p. maneuver_to 5 \<lparr>north_m = 0, east_m = 0, down_m = 0\<rparr> 0 3 4 0 (True, True, True) True =
          system_offboard_set_position_ned p)"
proof -
  have below: "sqrt (0\<^sup>2 + 0\<^sup>2 + 0\<^sup>2) < (5::real)" by simp
  have boundary: "(5::real) \<le> sqrt (3\<^sup>2 + 4\<^sup>2 + 0\<^sup>2)" by (simp only: sqrt_3_4_0 order_refl)
  from maneuver_to_min_distance_gate
         [of 0 0 0 5 "\<lparr>north_m = 0, east_m = 0, down_m = 0\<rparr>" 0 "(True, True, True)"] below
  have hold: "maneuver_to 5 \<lparr>north_m = 0, east_m = 0, down_m = 0\<rparr> 0 0 0 0 (True, True, True) True =
     system_offboard_set_velocity_body (VelocityBodyYawspeed 0 0 0 0)"
    by blast
  from maneuver_to_min_distance_gate
         [of 3 4 0 5 "\<lparr>north_m = 0, east_m = 0, down_m = 0\<rparr>" 0 "(True, True, True)"] boundary
  have move: "\<exists>p. maneuver_to 5 \<lparr>north_m = 0, east_m = 0, down_m = 0\<rparr> 0 3 4 0 (True, True, True) True =
          system_offboard_set_position_ned p"
    by blast
  from hold move show ?thesis by (intro conjI)
qed

text \<open>
  Claim C8. A request with zero displacement, all axes enabled and \<open>test_min\<close> unset is
  answered by a position setpoint, not a hold, and its north, east and down are those of
  the current position.
\<close>

theorem maneuver_to_zero_displacement:
  "\<exists>yaw. maneuver_to min_distance current_pos angle 0 0 0 (True, True, True) False =
     system_offboard_set_position_ned
       \<lparr>north_m = north_m current_pos, east_m = east_m current_pos,
        down_m = down_m current_pos, yaw_deg = yaw\<rparr>"
  by (simp add: maneuver_to_def maneuver_with_ned_def Let_def)

section \<open>Properties of the geofence\<close>

text \<open>
  Claim C5. The offset in degrees is the distance times \<open>1 / 111111\<close>; the request uploads
  one polygon, tagged as an inclusion, whose four corners are home minus and plus the
  offset in latitude and longitude, in the order south-west, north-west, north-east,
  south-east of the emitted list. For home \<open>(10, 20)\<close> and distance 111111 the corners
  are \<open>(9, 19)\<close>, \<open>(11, 19)\<close>, \<open>(11, 21)\<close>, \<open>(9, 21)\<close>.
\<close>

theorem create_geofence_square:
  "create_geofence latitude longitude distance =
     system_geofence_upload_geofence
       [Polygon
          [Point (latitude - distance * (1 / 111111)) (longitude - distance * (1 / 111111)),
           Point (latitude + distance * (1 / 111111)) (longitude - distance * (1 / 111111)),
           Point (latitude + distance * (1 / 111111)) (longitude + distance * (1 / 111111)),
           Point (latitude - distance * (1 / 111111)) (longitude + distance * (1 / 111111))]
          INCLUSION]
   \<and> create_geofence 10 20 111111 =
       system_geofence_upload_geofence
         [Polygon [Point 9 19, Point 11 19, Point 11 21, Point 9 21] INCLUSION]"
  by (simp add: create_geofence_def Let_def)

section \<open>Properties of the Command Worker\<close>



lemma pending_append: "pending (xs @ ys) = pending xs @ pending ys"
  by (induction xs rule: pending.induct) auto

lemma dispatched_append: "dispatched (xs @ ys) = dispatched xs @ dispatched ys"
  by (induction xs rule: dispatched.induct) auto

lemma sleeps_append: "sleeps (xs @ ys) = sleeps xs @ sleeps ys"
  by (induction xs rule: sleeps.induct) auto

lemma cleanup_queue: "cleanup s = (r, s1, effs) \<Longrightarrow> queue s1 = queue s \<and> dispatched effs = []"
  by (auto simp: cleanup_def split: option.splits)

lemma loop_exit_queue: "loop_exit leaving s = (s1, effs) \<Longrightarrow> queue s1 = queue s \<and> dispatched effs = []"
  by (auto simp: loop_exit_def cleanup_def dispatched_append split: option.splits prod.splits)

lemma process_command_dispatched:
  "process_command call com args kwargs = (r, es) \<Longrightarrow>
     dispatched es = (case com of None \<Rightarrow> [] | Some obj \<Rightarrow> [(obj, args, kwargs)])"
  by (auto simp: process_command_def split: option.splits if_splits)

lemma loop_iteration_queue:
  assumes "loop_iteration call s t0 t1 = (leaving, s1, effs)"
  shows "maxlen (queue s1) = maxlen (queue s)
         \<and> dispatched effs @ pending (items (queue s1)) = pending (items (queue s))
         \<and> length (items (queue s1)) \<le> length (items (queue s))"
proof (cases "items (queue s)")
  case Nil
  with assms show ?thesis
    by (auto simp: loop_iteration_def popleft_def Let_def dispatched_append split: if_splits)
next
  case (Cons c cs)
  obtain com args kwargs where c: "c = (com, args, kwargs)" by (cases c)
  obtain r es where pc: "process_command call com (case args of None \<Rightarrow> [] | Some a \<Rightarrow> a)
       (case kwargs of None \<Rightarrow> [] | Some k \<Rightarrow> k) = (r, es)" by fastforce
  have d: "dispatched es = (case com of None \<Rightarrow> [] | Some obj \<Rightarrow> [(obj, (case args of None \<Rightarrow> [] | Some a \<Rightarrow> a), (case kwargs of None \<Rightarrow> [] | Some k \<Rightarrow> k))])"
    using process_command_dispatched[OF pc] .
  from assms Cons c pc have s1: "s1 = s\<lparr>queue := (queue s)\<lparr>items := cs\<rparr>\<rparr>"
    and effs: "dispatched effs = dispatched es"
    by (auto simp: loop_iteration_def popleft_def Let_def dispatched_append
             split: if_splits option.splits exn.splits)
  show ?thesis using s1 effs d Cons c by (cases com) auto
qed


lemma loop_step_queue:
  assumes "loop_step call s t0 t1 = (s1, effs)"
  shows "maxlen (queue s1) = maxlen (queue s)
         \<and> dispatched effs @ pending (items (queue s1)) = pending (items (queue s))
         \<and> length (items (queue s1)) \<le> length (items (queue s))"
proof -
  obtain leaving s2 es where it: "loop_iteration call s t0 t1 = (leaving, s2, es)"
    by (cases "loop_iteration call s t0 t1") auto
  note q = loop_iteration_queue[OF it]
  show ?thesis
  proof (cases "mavlink_thread s \<noteq> Alive")
    case True
    with assms show ?thesis by (simp add: loop_step_def)
  next
    case alive: False
    show ?thesis
    proof (cases "stopped_mavlink s")
      case True
      with alive assms have "loop_exit None s = (s1, effs)" by (simp add: loop_step_def)
      from loop_exit_queue[OF this] show ?thesis by simp
    next
      case False
      show ?thesis
      proof (cases leaving)
        case None
        with alive False assms it have "s1 = s2" "effs = es" by (simp_all add: loop_step_def)
        with q show ?thesis by simp
      next
        case (Some e)
        obtain s3 es3 where ex: "loop_exit (Some e) s2 = (s3, es3)"
          by (cases "loop_exit (Some e) s2") auto
        with alive False assms it Some have "s1 = s3" "effs = es @ es3"
          by (simp_all add: loop_step_def)
        with q loop_exit_queue[OF ex] show ?thesis by (simp add: dispatched_append)
      qed
    qed
  qed
qed

lemma put_queue:
  "maxlen (queue s) = None \<Longrightarrow>
     maxlen (queue (put obj args kwargs s)) = None
     \<and> pending (items (queue (put obj args kwargs s))) = pending (items (queue s)) @ [(obj, args, kwargs)]"
  by (simp add: put_def deque_append_def pending_append)

lemma run_events_fifo:
  "maxlen (queue s) = None \<Longrightarrow> run_events call evs s = (s1, effs) \<Longrightarrow>
     maxlen (queue s1) = None
     \<and> dispatched effs @ pending (items (queue s1)) = pending (items (queue s)) @ enqueued evs"
proof (induction evs arbitrary: s s1 effs)
  case Nil
  then show ?case by simp
next
  case (Cons ev evs)
  show ?case
  proof (cases ev)
    case (Put obj args kwargs)
    with Cons.prems have run: "run_events call evs (put obj args kwargs s) = (s1, effs)" by simp
    from put_queue[OF Cons.prems(1), of obj args kwargs] Cons.IH[OF _ run] Put
    show ?thesis by simp
  next
    case (Turn t0 t1)
    obtain s2 es2 where st: "loop_step call s t0 t1 = (s2, es2)"
      by (cases "loop_step call s t0 t1") auto
    obtain s3 es3 where run: "run_events call evs s2 = (s3, es3)"
      by (cases "run_events call evs s2") auto
    from Cons.prems Turn st run have eq: "s1 = s3" "effs = es2 @ es3" by simp_all
    from loop_step_queue[OF st] Cons.prems(1) have m: "maxlen (queue s2) = None"
      and d: "dispatched es2 @ pending (items (queue s2)) = pending (items (queue s))" by simp_all
    from Cons.IH[OF m run] have "maxlen (queue s3) = None"
      and "dispatched es3 @ pending (items (queue s3)) = pending (items (queue s2)) @ enqueued evs"
      by simp_all
    with d eq Turn show ?thesis
      by (simp add: dispatched_append)
  qed
qed



lemma process_command_nonfatal:
  "(\<And>f a k. \<not> fatal (call f a k)) \<Longrightarrow> process_command call com args kwargs = (r, es) \<Longrightarrow> \<not> fatal r"
  by (auto simp: process_command_def split: option.splits if_splits)

lemma loop_iteration_nonfatal:
  assumes nf: "\<And>f a k. \<not> fatal (call f a k)"
    and it: "loop_iteration call s t0 t1 = (leaving, s1, effs)"
  shows "leaving = None \<and> mavlink_thread s1 = mavlink_thread s \<and> stopped_mavlink s1 = stopped_mavlink s
         \<and> length (items (queue s1)) = length (items (queue s)) - 1"
proof (cases "items (queue s)")
  case Nil
  with it show ?thesis
    by (auto simp: loop_iteration_def popleft_def Let_def split: if_splits)
next
  case (Cons c cs)
  obtain com args kwargs where c: "c = (com, args, kwargs)" by (cases c)
  obtain r es where pc: "process_command call com (case args of None \<Rightarrow> [] | Some a \<Rightarrow> a)
       (case kwargs of None \<Rightarrow> [] | Some k \<Rightarrow> k) = (r, es)" by fastforce
  from process_command_nonfatal[OF nf pc] have r: "\<not> fatal r" .
  have l: "leaving = None"
  proof (cases r)
    case None
    with it Cons c pc show ?thesis
      by (auto simp: loop_iteration_def popleft_def Let_def split: if_splits)
  next
    case (Some e)
    with r it Cons c pc show ?thesis
      by (cases e) (auto simp: loop_iteration_def popleft_def Let_def split: if_splits)
  qed
  from it Cons c pc have "s1 = s\<lparr>queue := (queue s)\<lparr>items := cs\<rparr>\<rparr>"
    by (auto simp: loop_iteration_def popleft_def Let_def split: if_splits option.splits exn.splits)
  with l Cons show ?thesis by simp
qed

lemma loop_step_running:
  assumes nf: "\<And>f a k. \<not> fatal (call f a k)"
    and run: "running s"
    and st: "loop_step call s t0 t1 = (s1, effs)"
  shows "running s1 \<and> length (items (queue s1)) = length (items (queue s)) - 1"
proof -
  obtain leaving s2 es where it: "loop_iteration call s t0 t1 = (leaving, s2, es)"
    by (cases "loop_iteration call s t0 t1") auto
  from loop_iteration_nonfatal[OF nf it] have l: "leaving = None"
    and k: "mavlink_thread s2 = mavlink_thread s" "stopped_mavlink s2 = stopped_mavlink s"
           "length (items (queue s2)) = length (items (queue s)) - 1" by simp_all
  from st run it l have "s1 = s2" by (simp add: loop_step_def running_def)
  with k run show ?thesis by (simp add: running_def)
qed

lemma put_running: "running s \<Longrightarrow> running (put obj args kwargs s)"
  by (simp add: running_def put_def)

lemma run_events_running:
  assumes nf: "\<And>f a k. \<not> fatal (call f a k)"
  shows "running s \<Longrightarrow> run_events call evs s = (s1, effs) \<Longrightarrow> running s1"
proof (induction evs arbitrary: s s1 effs)
  case Nil
  then show ?case by simp
next
  case (Cons ev evs)
  show ?case
  proof (cases ev)
    case (Put obj args kwargs)
    with Cons.prems Cons.IH[OF put_running[OF Cons.prems(1)]] show ?thesis by simp
  next
    case (Turn t0 t1)
    obtain s2 es2 where st: "loop_step call s t0 t1 = (s2, es2)"
      by (cases "loop_step call s t0 t1") auto
    obtain s3 es3 where run: "run_events call evs s2 = (s3, es3)"
      by (cases "run_events call evs s2") auto
    from Cons.prems Turn st run have eq: "s1 = s3" by simp
    from loop_step_running[OF nf Cons.prems(1) st] have "running s2" by simp
    from Cons.IH[OF this run] eq show ?thesis by simp
  qed
qed

lemma turns_empty_queue:
  assumes nf: "\<And>f a k. \<not> fatal (call f a k)"
  shows "running s \<Longrightarrow> length (items (queue s)) \<le> n \<Longrightarrow>
         run_events call (replicate n (Turn t0 t1)) s = (s1, effs) \<Longrightarrow> items (queue s1) = []"
proof (induction n arbitrary: s s1 effs)
  case 0
  then show ?case by simp
next
  case (Suc n)
  obtain s2 es2 where st: "loop_step call s t0 t1 = (s2, es2)"
    by (cases "loop_step call s t0 t1") auto
  obtain s3 es3 where run: "run_events call (replicate n (Turn t0 t1)) s2 = (s3, es3)"
    by (cases "run_events call (replicate n (Turn t0 t1)) s2") auto
  from Suc.prems st run have eq: "s1 = s3" by simp
  from loop_step_running[OF nf Suc.prems(1) st] Suc.prems(2)
  have "running s2" "length (items (queue s2)) \<le> n" by simp_all
  from Suc.IH[OF this run] eq show ?case by simp
qed

lemma run_events_append:
  "run_events call (xs @ ys) s =
     (let (s1, e1) = run_events call xs s; (s2, e2) = run_events call ys s1 in (s2, e1 @ e2))"
proof (induction xs arbitrary: s)
  case Nil
  then show ?case by simp
next
  case (Cons ev xs)
  then show ?case by (cases ev) (simp_all add: Let_def split: prod.splits)
qed

lemma run_events_length:
  "maxlen (queue s) = None \<Longrightarrow> run_events call evs s = (s1, effs) \<Longrightarrow>
     length (items (queue s1)) \<le> length (items (queue s)) + length (enqueued evs)"
proof (induction evs arbitrary: s s1 effs)
  case Nil
  then show ?case by simp
next
  case (Cons ev evs)
  show ?case
  proof (cases ev)
    case (Put obj args kwargs)
    with Cons.prems have run: "run_events call evs (put obj args kwargs s) = (s1, effs)" by simp
    have "maxlen (queue (put obj args kwargs s)) = None"
      "length (items (queue (put obj args kwargs s))) = Suc (length (items (queue s)))"
      using Cons.prems(1) by (simp_all add: put_def deque_append_def)
    with Cons.IH[OF _ run] Put show ?thesis by simp
  next
    case (Turn t0 t1)
    obtain s2 es2 where st: "loop_step call s t0 t1 = (s2, es2)"
      by (cases "loop_step call s t0 t1") auto
    obtain s3 es3 where run: "run_events call evs s2 = (s3, es3)"
      by (cases "run_events call evs s2") auto
    from Cons.prems Turn st run have eq: "s1 = s3" by simp
    from loop_step_queue[OF st] Cons.prems(1) have m: "maxlen (queue s2) = None" by simp
    have "length (items (queue s2)) \<le> length (items (queue s))"
      using loop_step_queue[OF st] by simp
    with Cons.IH[OF m run] eq Turn show ?thesis by simp
  qed
qed


lemma process_command_loop_turns:
  "process_command_loop call s clock = run_events call (map (\<lambda>(t0, t1). Turn t0 t1) clock) s"
  by (induction clock arbitrary: s) (auto simp: Let_def split: prod.splits)

lemma enqueued_turns: "enqueued (replicate n (Turn t0 t1)) = []"
  by (induction n) simp_all

text \<open>
  Claim C2. Callers put commands and the worker takes its turns, interleaved in any way,
  starting from the session as the constructor leaves it. At every moment the commands
  dispatched so far, followed by the commands still queued, are exactly the commands put,
  in the order they were put: the worker dispatches in enqueue order, never twice, never
  out of order. When no called function raises an exception that the iteration does not
  catch, as many further turns as there are commands dispatch every one of them.
\<close>

theorem worker_dispatches_fifo:
  "dispatched (snd (run_events call evs (init_session addr ts mfd port)))
     @ pending (items (queue (fst (run_events call evs (init_session addr ts mfd port)))))
     = enqueued evs
   \<and> ((\<forall>f a k. \<not> fatal (call f a k)) \<longrightarrow> length (enqueued evs) \<le> n \<longrightarrow>
        dispatched (snd (run_events call (evs @ replicate n (Turn t0 t1))
                           (init_session addr ts mfd port)))
          = enqueued evs)"
proof -
  let ?s0 = "init_session addr ts mfd port :: 'a session"
  have m0: "maxlen (queue ?s0) = None" and q0: "items (queue ?s0) = []" and r0: "running ?s0"
    by (simp_all add: init_session_def deque_def running_def)
  obtain s1 e1 where run1: "run_events call evs ?s0 = (s1, e1)"
    by (cases "run_events call evs ?s0") auto
  from run_events_fifo[OF m0 run1] q0
  have m1: "maxlen (queue s1) = None"
    and inv: "dispatched e1 @ pending (items (queue s1)) = enqueued evs" by simp_all
  have live: "dispatched (snd (run_events call (evs @ replicate n (Turn t0 t1)) ?s0)) = enqueued evs"
    if nf: "\<forall>f a k. \<not> fatal (call f a k)" and n: "length (enqueued evs) \<le> n"
  proof -
    obtain s2 e2 where run2: "run_events call (replicate n (Turn t0 t1)) s1 = (s2, e2)"
      by (cases "run_events call (replicate n (Turn t0 t1)) s1") auto
    from nf have nf': "\<And>f a k. \<not> fatal (call f a k)" by simp
    from run_events_running[OF nf' r0 run1] have r1: "running s1" .
    from run_events_length[OF m0 run1] q0 n have "length (items (queue s1)) \<le> n" by simp
    from turns_empty_queue[OF nf' r1 this run2] have e: "items (queue s2) = []" .
    from run_events_fifo[OF m1 run2] e
    have "dispatched e2 = pending (items (queue s1))" by (simp add: enqueued_turns)
    with inv have "dispatched (e1 @ e2) = enqueued evs" by (simp add: dispatched_append)
    with run1 run2 show ?thesis by (simp add: run_events_append)
  qed
  from inv run1 live show ?thesis by simp
qed

theorem worker_dispatches_fifo_witness:
  "dispatched (snd (run_events (\<lambda>_ _ _. None)
      ([Put (coroutine_function ''action.arm'') [] [], Put (plain_function ''f'') [1 :: nat] [],
        Turn 0 0, Put (coroutine_function ''action.land'') [] []] @ replicate 3 (Turn 0 0))
      (init_session ''udp://:14540'' (1 / 20) 5 14540)))
   = [(coroutine_function ''action.arm'', [], []), (plain_function ''f'', [1], []),
      (coroutine_function ''action.land'', [], [])]"
  using worker_dispatches_fifo
    [of "\<lambda>_ _ _. None"
        "[Put (coroutine_function ''action.arm'') [] [], Put (plain_function ''f'') [1 :: nat] [],
          Turn 0 0, Put (coroutine_function ''action.land'') [] []]"
        "''udp://:14540''" "1 / 20" 5 14540 3 0 0]
  by simp

text \<open>
  Claim C6. With an empty queue an iteration raises nothing, prints nothing, changes no
  field of the session and leaves the worker running; it sleeps for the time slice less
  the time the empty pop took, so the next check comes one time slice after the
  iteration started.
\<close>

theorem idle_iteration:
  "items (queue s) = [] \<Longrightarrow> mavlink_thread s = Alive \<Longrightarrow> \<not> stopped_mavlink s \<Longrightarrow>
     loop_iteration call s t0 t1 =
       (None, s, if t1 - t0 < time_slice s then [Slept (time_slice s - (t1 - t0))] else [])
     \<and> loop_step call s t0 t1 =
       (s, if t1 - t0 < time_slice s then [Slept (time_slice s - (t1 - t0))] else [])"
  by (simp add: loop_step_def loop_iteration_def popleft_def Let_def)

theorem idle_iteration_witness:
  "loop_iteration (\<lambda>_ _ _. None) (init_session ''udp://:14540'' (1 / 20) 5 14540 :: nat session) 0 (1 / 1000) =
     (None, init_session ''udp://:14540'' (1 / 20) 5 14540, [Slept (49 / 1000)])
   \<and> loop_step (\<lambda>_ _ _. None) (init_session ''udp://:14540'' (1 / 20) 5 14540 :: nat session) 0 (1 / 1000) =
     (init_session ''udp://:14540'' (1 / 20) 5 14540, [Slept (49 / 1000)])"
  using idle_iteration
    [of "init_session ''udp://:14540'' (1 / 20) 5 14540 :: nat session" "\<lambda>_ _ _. None" 0 "1 / 1000"]
  by (simp add: init_session_def deque_def)

lemma process_command_sleeps: "process_command call com args kwargs = (r, es) \<Longrightarrow> sleeps es = []"
  by (auto simp: process_command_def split: option.splits if_splits)

text \<open>
  Claim C7. Every iteration, whatever it popped and however the command ended, asks for
  one sleep of \<open>time_slice - elapsed\<close> when \<open>elapsed < time_slice\<close> and for no sleep
  otherwise: the time slept is \<open>max 0 (time_slice - elapsed)\<close>.
\<close>

theorem iteration_sleep:
  "sleeps (snd (snd (loop_iteration call s t0 t1))) =
     (if t1 - t0 < time_slice s then [time_slice s - (t1 - t0)] else [])
   \<and> sum_list (sleeps (snd (snd (loop_iteration call s t0 t1)))) = max 0 (time_slice s - (t1 - t0))"
proof -
  have "sleeps (snd (snd (loop_iteration call s t0 t1))) =
     (if t1 - t0 < time_slice s then [time_slice s - (t1 - t0)] else [])"
  proof (cases "items (queue s)")
    case Nil
    then show ?thesis by (simp add: loop_iteration_def popleft_def Let_def)
  next
    case (Cons c cs)
    obtain com args kwargs where c: "c = (com, args, kwargs)" by (cases c)
    obtain r es where pc: "process_command call com (case args of None \<Rightarrow> [] | Some a \<Rightarrow> a)
         (case kwargs of None \<Rightarrow> [] | Some k \<Rightarrow> k) = (r, es)" by fastforce
    from process_command_sleeps[OF pc] have "sleeps es = []" .
    with Cons c pc show ?thesis
      by (auto simp: loop_iteration_def popleft_def Let_def sleeps_append
               split: option.splits exn.splits)
  qed
  then show ?thesis by simp
qed

section \<open>Properties of the plugins\<close>

lemma deque_append_bounded:
  "maxlen d = Some 10 \<Longrightarrow> length (items d) \<le> 10 \<Longrightarrow>
     maxlen (deque_append d x) = Some 10 \<and> length (items (deque_append d x)) \<le> 10"
  by (auto simp: deque_append_def Let_def)

lemma run_plugin_bounded:
  "maxlen (task_cache p) = Some 10 \<Longrightarrow> length (items (task_cache p)) \<le> 10 \<Longrightarrow>
   maxlen (result_cache p) = Some 10 \<Longrightarrow> length (items (result_cache p)) \<le> 10 \<Longrightarrow>
     maxlen (task_cache (run_plugin evs p)) = Some 10
     \<and> length (items (task_cache (run_plugin evs p))) \<le> 10
     \<and> maxlen (result_cache (run_plugin evs p)) = Some 10
     \<and> length (items (result_cache (run_plugin evs p))) \<le> 10"
proof (induction evs arbitrary: p)
  case Nil
  then show ?case by simp
next
  case (Cons ev evs)
  show ?case
  proof (cases ev)
    case (Submit t)
    from deque_append_bounded[OF Cons.prems(1,2), of t] Cons.prems(3,4)
    have "maxlen (task_cache (snd (submit_task p t))) = Some 10"
      "length (items (task_cache (snd (submit_task p t)))) \<le> 10"
      "maxlen (result_cache (snd (submit_task p t))) = Some 10"
      "length (items (result_cache (snd (submit_task p t)))) \<le> 10"
      by (simp_all add: submit_task_def)
    from Cons.IH[OF this] Submit show ?thesis by simp
  next
    case (Done outcome)
    show ?thesis
    proof (cases outcome)
      case (Inl e)
      with Done Cons show ?thesis by (simp add: task_callback_def)
    next
      case (Inr r)
      from deque_append_bounded[OF Cons.prems(3,4), of r] Cons.prems(1,2)
      have "maxlen (task_cache (snd (task_callback p outcome))) = Some 10"
        "length (items (task_cache (snd (task_callback p outcome)))) \<le> 10"
        "maxlen (result_cache (snd (task_callback p outcome))) = Some 10"
        "length (items (result_cache (snd (task_callback p outcome)))) \<le> 10"
        by (simp_all add: task_callback_def Inr)
      from Cons.IH[OF this] Done show ?thesis by simp
    qed
  qed
qed

text \<open>
  Claim C9. After any sequence of submissions and completions on a new plugin, the
  pending-task cache and the result cache each hold at most 10 entries. A submission
  returns the task it was given and raises nothing; the task is the newest entry of the
  pending cache, and when the cache was full its oldest entry is the one dropped.
\<close>

theorem task_caches_bounded:
  "len (task_cache (run_plugin evs (plugin_init sys))) \<le> 10
   \<and> len (result_cache (run_plugin evs (plugin_init sys))) \<le> 10
   \<and> fst (submit_task (run_plugin evs (plugin_init sys)) t) = t
   \<and> items (task_cache (snd (submit_task (run_plugin evs (plugin_init sys)) t))) =
       (if len (task_cache (run_plugin evs (plugin_init sys))) = 10
        then tl (items (task_cache (run_plugin evs (plugin_init sys))))
        else items (task_cache (run_plugin evs (plugin_init sys)))) @ [t]
   \<and> t \<in> set (items (task_cache (snd (submit_task (run_plugin evs (plugin_init sys)) t))))"
proof -
  let ?p = "run_plugin evs (plugin_init sys :: ('a, 'b) plugin)"
  have "maxlen (task_cache (plugin_init sys :: ('a, 'b) plugin)) = Some 10"
    "length (items (task_cache (plugin_init sys :: ('a, 'b) plugin))) \<le> 10"
    "maxlen (result_cache (plugin_init sys :: ('a, 'b) plugin)) = Some 10"
    "length (items (result_cache (plugin_init sys :: ('a, 'b) plugin))) \<le> 10"
    by (simp_all add: plugin_init_def deque_def)
  from run_plugin_bounded[OF this, of evs]
  have m: "maxlen (task_cache ?p) = Some 10" and l: "length (items (task_cache ?p)) \<le> 10"
    and lr: "length (items (result_cache ?p)) \<le> 10" by simp_all
  have app: "items (task_cache (snd (submit_task ?p t))) =
       (if len (task_cache ?p) = 10 then tl (items (task_cache ?p)) else items (task_cache ?p)) @ [t]"
    using m l by (cases "items (task_cache ?p)") (auto simp: submit_task_def deque_append_def Let_def len_def)
  have mem: "t \<in> set (items (task_cache (snd (submit_task ?p t))))"
    by (simp only: app) simp
  have ret: "fst (submit_task ?p t) = t" by (simp add: submit_task_def)
  from l lr ret app mem show ?thesis by (simp add: len_def)
qed



section \<open>Properties of stop\<close>

text \<open>
  Claim C4, evaluated. A session whose teardown hook calls \<open>land\<close> is stopped; the first
  \<open>stop\<close> returns. The second \<open>stop\<close> passes the guarded \<open>disarm\<close>, calls the teardown hook
  again, and the hook's \<open>land\<close> raises because the Link Handle is gone. With the hook of
  \<open>CSM_Gazebo\<close> the second \<open>stop\<close> returns and leaves the session as it was, but it has
  asked the event loop to stop and has called the teardown hook a second time.
\<close>

theorem second_stop_repeats_teardown:
  "fst (stop (\<lambda>_ _ _. None) land (\<lambda>_. (0, 0))
          (init_session ''udp://:14540'' (1 / 20) 5 14540 :: nat session)) = Returned
   \<and> fst (stop (\<lambda>_ _ _. None) land (\<lambda>_. (0, 0))
          (fst (snd (stop (\<lambda>_ _ _. None) land (\<lambda>_. (0, 0))
             (init_session ''udp://:14540'' (1 / 20) 5 14540 :: nat session)))))
       = Raised (AttributeError ''_drone'')
   \<and> stop (\<lambda>_ _ _. None) gazebo_teardown (\<lambda>_. (0, 0))
          (fst (snd (stop (\<lambda>_ _ _. None) gazebo_teardown (\<lambda>_. (0, 0))
             (init_session ''udp://:14540'' (1 / 20) 5 14540 :: nat session))))
       = (Returned,
          fst (snd (stop (\<lambda>_ _ _. None) gazebo_teardown (\<lambda>_. (0, 0))
             (init_session ''udp://:14540'' (1 / 20) 5 14540 :: nat session))),
          [LoopStop, Teardown])"
  by (simp add: stop_def init_session_def deque_def clear_def len_def disarm_def land_def put_def
        deque_append_def gazebo_teardown_def loop_step_def loop_iteration_def loop_exit_def
        cleanup_def popleft_def process_command_def Let_def)

end
